theory Spec2Isabelle
  imports Main "HOL-Library.Word" "HOL-Library.Sublist"
begin

section \<open>ChConn: a net.Conn over an SSH channel (api/utils/sshutils/chconn.go)\<close>

text \<open>
  \<open>ChConn\<close> wraps an \<open>ssh.Channel\<close> and its parent \<open>ssh.Conn\<close>, both Go interface
  values supplied by the caller, and a pipe made by \<open>net.Pipe()\<close>. Every method of
  \<open>ChConn\<close> is a short sequence of calls on these collaborators. The collaborators are
  therefore modelled as method tables over explicit state: the channel and its parent
  connection act on one shared state \<open>'s\<close> (a channel is multiplexed over its connection),
  the two pipe ends act on one shared state \<open>'p\<close> (they are the two ends of one pipe).
  Every call on a collaborator is appended, with its result, to a ghost log, so that
  "which calls does this method make, in which order, with which results" is a property
  of the final state.
\<close>

subsection \<open>Values\<close>

type_synonym byte = "8 word"

text \<open>A \<open>time.Time\<close> instant; the zero value means "no deadline".\<close>
type_synonym Time = int

text \<open>A \<open>net.Addr\<close>, by its printed form.\<close>
type_synonym Addr = string

text \<open>
  Go \<open>error\<close> values (\<open>nil\<close> is \<open>None\<close> of \<open>error option\<close>): the sentinels of the
  standard library that the collaborators report, any other error by its message, and the
  aggregate built by \<open>trace.NewAggregate\<close>, which holds the list of its causes.
\<close>
datatype error =
    EOF
  | ErrClosedPipe
  | ErrDeadlineExceeded
  | ErrOther string
  | Aggregate "error list"

subsection \<open>Collaborators: method tables\<close>

text \<open>
  \<open>Read(data []byte) (int, error)\<close> receives the caller's buffer and returns it as
  filled, with the count and the error.
\<close>

record 's ssh_Channel =
  ch_Read :: "byte list \<Rightarrow> 's \<Rightarrow> (byte list \<times> nat \<times> error option) \<times> 's"
  ch_Write :: "byte list \<Rightarrow> 's \<Rightarrow> (nat \<times> error option) \<times> 's"
  ch_Close :: "'s \<Rightarrow> error option \<times> 's"
  ch_SendRequest :: "string \<Rightarrow> bool \<Rightarrow> byte list \<Rightarrow> 's \<Rightarrow> (bool \<times> error option) \<times> 's"

record 's ssh_Conn =
  conn_Close :: "'s \<Rightarrow> error option \<times> 's"
  conn_LocalAddr :: "'s \<Rightarrow> Addr"
  conn_RemoteAddr :: "'s \<Rightarrow> Addr"

record 'p net_Conn =
  nc_Read :: "byte list \<Rightarrow> 'p \<Rightarrow> (byte list \<times> nat \<times> error option) \<times> 'p"
  nc_Write :: "byte list \<Rightarrow> 'p \<Rightarrow> (nat \<times> error option) \<times> 'p"
  nc_Close :: "'p \<Rightarrow> error option \<times> 'p"
  nc_SetDeadline :: "Time \<Rightarrow> 'p \<Rightarrow> error option \<times> 'p"
  nc_SetReadDeadline :: "Time \<Rightarrow> 'p \<Rightarrow> error option \<times> 'p"
  nc_SetWriteDeadline :: "Time \<Rightarrow> 'p \<Rightarrow> error option \<times> 'p"

text \<open>What \<open>net.Pipe()\<close> returns: the two ends, and the state of the fresh pipe.\<close>
record 'p net_Pipe =
  pipe_end1 :: "'p net_Conn"
  pipe_end2 :: "'p net_Conn"
  pipe_fresh :: 'p

subsection \<open>The struct and the state\<close>

record ('s, 'p) ChConn =
  mu :: bool
  Channel :: "'s ssh_Channel"
  conn :: "'s ssh_Conn"
  exclusive :: bool
  reader :: "'p net_Conn"
  writer :: "'p net_Conn"

text \<open>The collaborator a logged call was made on.\<close>
datatype callee = the_Channel | the_conn | the_reader | the_writer

text \<open>The ghost log: one event for each call on a collaborator, with what it returned.\<close>
datatype event =
    Ev_Close callee "error option"
  | Ev_Read callee nat "nat \<times> error option"
  | Ev_Write callee "byte list" "nat \<times> error option"
  | Ev_SetDeadline callee Time "error option"
  | Ev_SetReadDeadline callee Time "error option"
  | Ev_SetWriteDeadline callee Time "error option"
  | Ev_LocalAddr callee
  | Ev_RemoteAddr callee
  | Ev_SendRequest callee string

text \<open>
  A started \<open>io.Copy(dst, src)\<close>: the task holds the writer it copies to and the reader
  it copies from.
\<close>
record ('s, 'p) io_Copy =
  dst :: "'p net_Conn"
  src :: "'s ssh_Channel"

text \<open>
  The state: the struct, the state of the SSH side, the state of the pipe, the log, and the
  goroutine that the constructor started, while it runs.
\<close>
record ('s, 'p) state =
  chconn :: "('s, 'p) ChConn"
  ssh :: 's
  pipe :: 'p
  calls :: "event list"
  goroutine :: "('s, 'p) io_Copy option"

subsection \<open>\<open>trace.NewAggregate\<close>\<close>

text \<open>
  Modelled from the spec: \<open>trace.NewAggregate\<close> (package github.com/gravitational/trace)
  is not part of the source file. The spec, section 7: "aggregate all non-nil failures into
  one combined error; if none failed, return no error"; section 9: "an aggregate error
  value type holding an ordered list of underlying causes". \<open>Close\<close> appends only non-nil
  errors, so the argument is a list of errors.
\<close>
definition NewAggregate :: "error list \<Rightarrow> error option" where
  "NewAggregate errs = (if errs = [] then None else Some (Aggregate errs))"

subsection \<open>Calls on the collaborators\<close>

definition log :: "event \<Rightarrow> ('s, 'p) state \<Rightarrow> ('s, 'p) state" where
  "log ev s = s\<lparr>calls := calls s @ [ev]\<rparr>"

definition Channel_Close :: "('s, 'p) state \<Rightarrow> error option \<times> ('s, 'p) state" where
  "Channel_Close s =
     (let (err, x) = ch_Close (Channel (chconn s)) (ssh s)
      in (err, log (Ev_Close the_Channel err) (s\<lparr>ssh := x\<rparr>)))"

definition Channel_Write ::
  "byte list \<Rightarrow> ('s, 'p) state \<Rightarrow> (nat \<times> error option) \<times> ('s, 'p) state" where
  "Channel_Write data s =
     (let (r, x) = ch_Write (Channel (chconn s)) data (ssh s)
      in (r, log (Ev_Write the_Channel data r) (s\<lparr>ssh := x\<rparr>)))"

definition conn_Close_call :: "('s, 'p) state \<Rightarrow> error option \<times> ('s, 'p) state" where
  "conn_Close_call s =
     (let (err, x) = conn_Close (conn (chconn s)) (ssh s)
      in (err, log (Ev_Close the_conn err) (s\<lparr>ssh := x\<rparr>)))"

definition reader_Close :: "('s, 'p) state \<Rightarrow> error option \<times> ('s, 'p) state" where
  "reader_Close s =
     (let (err, x) = nc_Close (reader (chconn s)) (pipe s)
      in (err, log (Ev_Close the_reader err) (s\<lparr>pipe := x\<rparr>)))"

definition writer_Close :: "('s, 'p) state \<Rightarrow> error option \<times> ('s, 'p) state" where
  "writer_Close s =
     (let (err, x) = nc_Close (writer (chconn s)) (pipe s)
      in (err, log (Ev_Close the_writer err) (s\<lparr>pipe := x\<rparr>)))"

definition reader_Read ::
  "byte list \<Rightarrow> ('s, 'p) state \<Rightarrow> (byte list \<times> nat \<times> error option) \<times> ('s, 'p) state" where
  "reader_Read data s =
     (let ((data', n, err), x) = nc_Read (reader (chconn s)) data (pipe s)
      in ((data', n, err), log (Ev_Read the_reader (length data) (n, err)) (s\<lparr>pipe := x\<rparr>)))"

definition reader_SetDeadline :: "Time \<Rightarrow> ('s, 'p) state \<Rightarrow> error option \<times> ('s, 'p) state" where
  "reader_SetDeadline t s =
     (let (err, x) = nc_SetDeadline (reader (chconn s)) t (pipe s)
      in (err, log (Ev_SetDeadline the_reader t err) (s\<lparr>pipe := x\<rparr>)))"

definition reader_SetReadDeadline ::
  "Time \<Rightarrow> ('s, 'p) state \<Rightarrow> error option \<times> ('s, 'p) state" where
  "reader_SetReadDeadline t s =
     (let (err, x) = nc_SetReadDeadline (reader (chconn s)) t (pipe s)
      in (err, log (Ev_SetReadDeadline the_reader t err) (s\<lparr>pipe := x\<rparr>)))"

text \<open>
  \<open>c.mu.Lock()\<close> and the deferred \<open>c.mu.Unlock()\<close>. \<open>Lock\<close> waits while another
  \<open>Close\<close> holds the mutex; calls are sequential here, and every path of \<open>Close\<close>
  releases it.
\<close>
definition mu_Lock :: "('s, 'p) state \<Rightarrow> ('s, 'p) state" where
  "mu_Lock s = s\<lparr>chconn := (chconn s)\<lparr>mu := True\<rparr>\<rparr>"

definition mu_Unlock :: "('s, 'p) state \<Rightarrow> ('s, 'p) state" where
  "mu_Unlock s = s\<lparr>chconn := (chconn s)\<lparr>mu := False\<rparr>\<rparr>"

subsection \<open>The methods of \<open>ChConn\<close>\<close>

text \<open>\<open>errors = append(errors, err)\<close> under \<open>if err != nil\<close>.\<close>
definition append_err :: "error list \<Rightarrow> error option \<Rightarrow> error list" where
  "append_err errors err = (case err of None \<Rightarrow> errors | Some e \<Rightarrow> errors @ [e])"

definition Close :: "('s, 'p) state \<Rightarrow> error option \<times> ('s, 'p) state" where
  "Close s0 =
     (let s1 = mu_Lock s0;
          errors0 = [];
          (err1, s2) = Channel_Close s1;
          errors1 = append_err errors0 err1;
          (err2, s3) = reader_Close s2;
          errors2 = append_err errors1 err2;
          (err3, s4) = writer_Close s3;
          errors3 = append_err errors2 err3
      in if \<not> exclusive (chconn s4) then (NewAggregate errors3, mu_Unlock s4)
         else
           (let (err4, s5) = conn_Close_call s4;
                errors4 = append_err errors3 err4
            in (NewAggregate errors4, mu_Unlock s5)))"

definition LocalAddr :: "('s, 'p) state \<Rightarrow> Addr \<times> ('s, 'p) state" where
  "LocalAddr s = (conn_LocalAddr (conn (chconn s)) (ssh s), log (Ev_LocalAddr the_conn) s)"

definition RemoteAddr :: "('s, 'p) state \<Rightarrow> Addr \<times> ('s, 'p) state" where
  "RemoteAddr s = (conn_RemoteAddr (conn (chconn s)) (ssh s), log (Ev_RemoteAddr the_conn) s)"

definition Read ::
  "byte list \<Rightarrow> ('s, 'p) state \<Rightarrow> (byte list \<times> nat \<times> error option) \<times> ('s, 'p) state" where
  "Read data s = reader_Read data s"

definition SetDeadline :: "Time \<Rightarrow> ('s, 'p) state \<Rightarrow> error option \<times> ('s, 'p) state" where
  "SetDeadline t s = reader_SetDeadline t s"

definition SetReadDeadline :: "Time \<Rightarrow> ('s, 'p) state \<Rightarrow> error option \<times> ('s, 'p) state" where
  "SetReadDeadline t s = reader_SetReadDeadline t s"

definition SetWriteDeadline :: "Time \<Rightarrow> ('s, 'p) state \<Rightarrow> error option \<times> ('s, 'p) state" where
  "SetWriteDeadline t s = (None, s)"

text \<open>
  \<open>ChConn\<close> embeds \<open>ssh.Channel\<close> and declares no \<open>Write\<close> of its own: \<open>c.Write\<close> is the
  promoted method \<open>c.Channel.Write\<close>.
\<close>
definition Write ::
  "byte list \<Rightarrow> ('s, 'p) state \<Rightarrow> (nat \<times> error option) \<times> ('s, 'p) state" where
  "Write data s = Channel_Write data s"

definition ConnectionTypeRequest :: string where
  "ConnectionTypeRequest = ''x-teleport-connection-type''"

subsection \<open>Construction\<close>

text \<open>
  \<open>newChConn\<close> takes the pipe that \<open>net.Pipe()\<close> returns as a parameter (the standard
  library is not part of the source file), and the state of the SSH side at the moment of
  the call. \<open>go io.Copy(writer, ch)\<close> starts the copy task on the write end of the pipe
  and the channel: the task becomes part of the state, and the section on the data path
  runs it from there.
\<close>
definition newChConn ::
  "'p net_Pipe \<Rightarrow> 's ssh_Conn \<Rightarrow> 's ssh_Channel \<Rightarrow> bool \<Rightarrow> 's \<Rightarrow> ('s, 'p) state" where
  "newChConn net_Pipe cn ch excl x =
     (let (rd, wr) = (pipe_end1 net_Pipe, pipe_end2 net_Pipe);
          c = \<lparr>mu = False, Channel = ch, conn = cn, exclusive = excl,
               reader = rd, writer = wr\<rparr>
      in \<lparr>chconn = c, ssh = x, pipe = pipe_fresh net_Pipe, calls = [],
          goroutine = Some \<lparr>dst = wr, src = ch\<rparr>\<rparr>)"

definition NewChConn ::
  "'p net_Pipe \<Rightarrow> 's ssh_Conn \<Rightarrow> 's ssh_Channel \<Rightarrow> 's \<Rightarrow> ('s, 'p) state" where
  "NewChConn net_Pipe cn ch x = newChConn net_Pipe cn ch False x"

definition NewExclusiveChConn ::
  "'p net_Pipe \<Rightarrow> 's ssh_Conn \<Rightarrow> 's ssh_Channel \<Rightarrow> 's \<Rightarrow> ('s, 'p) state" where
  "NewExclusiveChConn net_Pipe cn ch x = newChConn net_Pipe cn ch True x"

subsection \<open>Sequences of method calls\<close>

text \<open>
  The methods a caller can invoke on a \<open>ChConn\<close>, with their arguments: the ones that
  chconn.go declares, and \<open>Write\<close>. The other methods promoted from the embedded
  \<open>ssh.Channel\<close> (\<open>CloseWrite\<close>, \<open>SendRequest\<close>, \<open>Stderr\<close>) are the channel's own, called
  with the caller's arguments, as \<open>Write\<close> is.
\<close>
datatype op =
    Op_Read "byte list"
  | Op_Write "byte list"
  | Op_Close
  | Op_LocalAddr
  | Op_RemoteAddr
  | Op_SetDeadline Time
  | Op_SetReadDeadline Time
  | Op_SetWriteDeadline Time

fun run_op :: "op \<Rightarrow> ('s, 'p) state \<Rightarrow> ('s, 'p) state" where
  "run_op (Op_Read data) s = snd (Read data s)"
| "run_op (Op_Write data) s = snd (Write data s)"
| "run_op Op_Close s = snd (Close s)"
| "run_op Op_LocalAddr s = snd (LocalAddr s)"
| "run_op Op_RemoteAddr s = snd (RemoteAddr s)"
| "run_op (Op_SetDeadline t) s = snd (SetDeadline t s)"
| "run_op (Op_SetReadDeadline t) s = snd (SetReadDeadline t s)"
| "run_op (Op_SetWriteDeadline t) s = snd (SetWriteDeadline t s)"

fun run_ops :: "op list \<Rightarrow> ('s, 'p) state \<Rightarrow> ('s, 'p) state" where
  "run_ops [] s = s"
| "run_ops (x # xs) s = run_ops xs (run_op x s)"

subsection \<open>Reading the log\<close>

text \<open>The events that a step from \<open>s\<close> to \<open>s'\<close> appended.\<close>
definition new_calls :: "('s, 'p) state \<Rightarrow> ('s, 'p) state \<Rightarrow> event list" where
  "new_calls s s' = drop (length (calls s)) (calls s')"

text \<open>The collaborators closed, in order.\<close>
fun close_calls :: "event list \<Rightarrow> callee list" where
  "close_calls [] = []"
| "close_calls (Ev_Close who err # evs) = who # close_calls evs"
| "close_calls (ev # evs) = close_calls evs"

text \<open>The errors that the close calls reported, in order.\<close>
fun close_errors :: "event list \<Rightarrow> error list" where
  "close_errors [] = []"
| "close_errors (Ev_Close who (Some e) # evs) = e # close_errors evs"
| "close_errors (ev # evs) = close_errors evs"

text \<open>The calls that install a deadline.\<close>
fun deadline_calls :: "event list \<Rightarrow> event list" where
  "deadline_calls [] = []"
| "deadline_calls (Ev_SetDeadline who t err # evs) =
     Ev_SetDeadline who t err # deadline_calls evs"
| "deadline_calls (Ev_SetReadDeadline who t err # evs) =
     Ev_SetReadDeadline who t err # deadline_calls evs"
| "deadline_calls (Ev_SetWriteDeadline who t err # evs) =
     Ev_SetWriteDeadline who t err # deadline_calls evs"
| "deadline_calls (ev # evs) = deadline_calls evs"

text \<open>The names of the requests sent over the channel.\<close>
fun request_calls :: "event list \<Rightarrow> string list" where
  "request_calls [] = []"
| "request_calls (Ev_SendRequest who name # evs) = name # request_calls evs"
| "request_calls (ev # evs) = request_calls evs"

text \<open>The collaborator of each event.\<close>
fun callees :: "event list \<Rightarrow> callee list" where
  "callees [] = []"
| "callees (Ev_Close who err # evs) = who # callees evs"
| "callees (Ev_Read who n r # evs) = who # callees evs"
| "callees (Ev_Write who data r # evs) = who # callees evs"
| "callees (Ev_SetDeadline who t err # evs) = who # callees evs"
| "callees (Ev_SetReadDeadline who t err # evs) = who # callees evs"
| "callees (Ev_SetWriteDeadline who t err # evs) = who # callees evs"
| "callees (Ev_LocalAddr who # evs) = who # callees evs"
| "callees (Ev_RemoteAddr who # evs) = who # callees evs"
| "callees (Ev_SendRequest who name # evs) = who # callees evs"

subsection \<open>Concrete collaborators\<close>

text \<open>
  Collaborators whose every call fails with a given error, leaving the state as it is.
\<close>
definition failing_Channel :: "error \<Rightarrow> 's ssh_Channel" where
  "failing_Channel e =
     \<lparr>ch_Read = (\<lambda>data x. ((data, 0, Some e), x)),
      ch_Write = (\<lambda>data x. ((0, Some e), x)),
      ch_Close = (\<lambda>x. (Some e, x)),
      ch_SendRequest = (\<lambda>name wantReply payload x. ((False, Some e), x))\<rparr>"

definition failing_Conn :: "error \<Rightarrow> 's ssh_Conn" where
  "failing_Conn e =
     \<lparr>conn_Close = (\<lambda>x. (Some e, x)),
      conn_LocalAddr = (\<lambda>x. ''local''),
      conn_RemoteAddr = (\<lambda>x. ''remote'')\<rparr>"

definition failing_net_Conn :: "error \<Rightarrow> 'p net_Conn" where
  "failing_net_Conn e =
     \<lparr>nc_Read = (\<lambda>data p. ((data, 0, Some e), p)),
      nc_Write = (\<lambda>data p. ((0, Some e), p)),
      nc_Close = (\<lambda>p. (Some e, p)),
      nc_SetDeadline = (\<lambda>t p. (Some e, p)),
      nc_SetReadDeadline = (\<lambda>t p. (Some e, p)),
      nc_SetWriteDeadline = (\<lambda>t p. (Some e, p))\<rparr>"

definition failing_Pipe :: "error \<Rightarrow> error \<Rightarrow> unit net_Pipe" where
  "failing_Pipe e1 e2 =
     \<lparr>pipe_end1 = failing_net_Conn e1, pipe_end2 = failing_net_Conn e2, pipe_fresh = ()\<rparr>"

text \<open>
  Modelled from the spec: the implementations of \<open>ssh.Channel\<close> and \<open>ssh.Conn\<close> are not
  part of the source file. The spec, section 6: the channel offers "Read/Write of raw bytes,
  Close", the connection "Close, LocalAddr, RemoteAddr"; section 9: a redundant close
  reports "whatever error" the resource reports. The errors follow golang.org/x/crypto/ssh:
  once the channel has sent its close message every later packet, a second close included,
  is refused with \<open>io.EOF\<close>; closing the connection twice reports the error of the closed
  socket. \<open>inbound\<close> holds the bytes written by the remote peer and not yet read,
  \<open>outbound\<close> the bytes written to the peer. \<open>Read\<close> hands over what is there, up to
  the size of the buffer; on an empty \<open>inbound\<close> the table answers as after the peer's
  end of stream (the real call would wait while the peer is still there).
\<close>
record ssh_state =
  sentClose :: bool
  conn_closed :: bool
  inbound :: "byte list"
  outbound :: "byte list"

definition crypto_Channel :: "ssh_state ssh_Channel" where
  "crypto_Channel =
     \<lparr>ch_Read = (\<lambda>data x.
        if inbound x = [] then ((data, 0, Some EOF), x)
        else (let n = min (length data) (length (inbound x))
              in ((take n (inbound x) @ drop n data, n, None),
                  x\<lparr>inbound := drop n (inbound x)\<rparr>))),
      ch_Write = (\<lambda>data x.
        if sentClose x then ((0, Some EOF), x)
        else ((length data, None), x\<lparr>outbound := outbound x @ data\<rparr>)),
      ch_Close = (\<lambda>x.
        if sentClose x then (Some EOF, x) else (None, x\<lparr>sentClose := True\<rparr>)),
      ch_SendRequest = (\<lambda>name wantReply payload x.
        ((False, if sentClose x then Some EOF else None), x))\<rparr>"

definition crypto_Conn :: "ssh_state ssh_Conn" where
  "crypto_Conn =
     \<lparr>conn_Close = (\<lambda>x.
        if conn_closed x then (Some (ErrOther ''use of closed network connection''), x)
        else (None, x\<lparr>conn_closed := True\<rparr>)),
      conn_LocalAddr = (\<lambda>x. ''127.0.0.1:3022''),
      conn_RemoteAddr = (\<lambda>x. ''127.0.0.1:50000'')\<rparr>"

definition ssh_fresh :: ssh_state where
  "ssh_fresh = \<lparr>sentClose = False, conn_closed = False, inbound = [], outbound = []\<rparr>"

text \<open>
  A channel whose \<open>Close\<close> is guarded to run once and reports nothing afterwards; its
  other methods are those of \<open>crypto_Channel\<close>.
\<close>
definition once_Channel :: "ssh_state ssh_Channel" where
  "once_Channel = crypto_Channel\<lparr>ch_Close := (\<lambda>x. (None, x\<lparr>sentClose := True\<rparr>))\<rparr>"

text \<open>
  Modelled from the spec: the pipe of \<open>net.Pipe()\<close> is not part of the source file. The
  spec, section 2: "an in-memory, synchronous, two-ended stream with independent
  deadline-aware read/write per end", "unbuffered"; section 4.1: \<open>Read\<close> "blocks until the
  copy task has supplied bytes or the pipe is closed; obeys the read deadline". Where the
  spec is silent the tables follow Go's standard library (net/pipe.go): \<open>Close\<close> of an end
  closes its done channel under a \<open>sync.Once\<close> and returns \<open>nil\<close>, every time; the
  deadline setters refuse with \<open>io.ErrClosedPipe\<close> once either end is closed; \<open>Read\<close> and
  \<open>Write\<close> first look at the done channels and the deadline. The pipe has no buffer:
  \<open>offered\<close> is what a \<open>Write\<close> on end 2 is handing over to the reads on end 1, and that
  \<open>Write\<close> returns once all of it is taken. Where the real call would wait for its peer,
  the table answers as it does when the deadline is due.
\<close>
record pipe_state =
  done1 :: bool
  done2 :: bool
  deadlines1 :: "Time \<times> Time"
  deadlines2 :: "Time \<times> Time"
  offered :: "byte list"
  clock :: Time

definition due :: "Time \<Rightarrow> pipe_state \<Rightarrow> bool" where
  "due t p = (t \<noteq> 0 \<and> t \<le> clock p)"

definition std_end1 :: "pipe_state net_Conn" where
  "std_end1 =
     \<lparr>nc_Read = (\<lambda>data p.
        if done1 p then ((data, 0, Some ErrClosedPipe), p)
        else if done2 p then ((data, 0, Some EOF), p)
        else if due (fst (deadlines1 p)) p \<or> offered p = []
          then ((data, 0, Some ErrDeadlineExceeded), p)
        else (let nr = min (length data) (length (offered p))
              in ((take nr (offered p) @ drop nr data, nr, None),
                  p\<lparr>offered := drop nr (offered p)\<rparr>))),
      nc_Write = (\<lambda>data p.
        if done1 p \<or> done2 p then ((0, Some ErrClosedPipe), p)
        else ((0, Some ErrDeadlineExceeded), p)),
      nc_Close = (\<lambda>p. (None, p\<lparr>done1 := True\<rparr>)),
      nc_SetDeadline = (\<lambda>t p.
        if done1 p \<or> done2 p then (Some ErrClosedPipe, p)
        else (None, p\<lparr>deadlines1 := (t, t)\<rparr>)),
      nc_SetReadDeadline = (\<lambda>t p.
        if done1 p \<or> done2 p then (Some ErrClosedPipe, p)
        else (None, p\<lparr>deadlines1 := (t, snd (deadlines1 p))\<rparr>)),
      nc_SetWriteDeadline = (\<lambda>t p.
        if done1 p \<or> done2 p then (Some ErrClosedPipe, p)
        else (None, p\<lparr>deadlines1 := (fst (deadlines1 p), t)\<rparr>))\<rparr>"

definition std_end2 :: "pipe_state net_Conn" where
  "std_end2 =
     \<lparr>nc_Read = (\<lambda>data p.
        if done2 p then ((data, 0, Some ErrClosedPipe), p)
        else if done1 p then ((data, 0, Some EOF), p)
        else ((data, 0, Some ErrDeadlineExceeded), p)),
      nc_Write = (\<lambda>data p.
        if done1 p \<or> done2 p then ((0, Some ErrClosedPipe), p)
        else if due (snd (deadlines2 p)) p then ((0, Some ErrDeadlineExceeded), p)
        else ((length data, None), p\<lparr>offered := offered p @ data\<rparr>)),
      nc_Close = (\<lambda>p. (None, p\<lparr>done2 := True\<rparr>)),
      nc_SetDeadline = (\<lambda>t p.
        if done1 p \<or> done2 p then (Some ErrClosedPipe, p)
        else (None, p\<lparr>deadlines2 := (t, t)\<rparr>)),
      nc_SetReadDeadline = (\<lambda>t p.
        if done1 p \<or> done2 p then (Some ErrClosedPipe, p)
        else (None, p\<lparr>deadlines2 := (t, snd (deadlines2 p))\<rparr>)),
      nc_SetWriteDeadline = (\<lambda>t p.
        if done1 p \<or> done2 p then (Some ErrClosedPipe, p)
        else (None, p\<lparr>deadlines2 := (fst (deadlines2 p), t)\<rparr>))\<rparr>"

definition std_Pipe :: "pipe_state net_Pipe" where
  "std_Pipe =
     \<lparr>pipe_end1 = std_end1, pipe_end2 = std_end2,
      pipe_fresh = \<lparr>done1 = False, done2 = False, deadlines1 = (0, 0),
                    deadlines2 = (0, 0), offered = [], clock = 1\<rparr>\<rparr>"

section \<open>The data path: peer, channel, copy task, pipe, reader\<close>

text \<open>
  The copy task started by \<open>newChConn\<close> runs beside the caller's method calls and beside
  the remote peer. A run of the whole is a schedule: a list of steps, each of which is the
  peer writing bytes into the channel, one round of the copy task, or one method call on
  the \<open>ChConn\<close>. The methods are the ones defined above, on the concrete collaborators;
  the copy task is the one that the constructor left in the state. Two ghost fields record
  what the peer has written and what \<open>Read\<close> has returned.
\<close>

text \<open>\<open>io.Copy\<close> reads through a buffer of 32 KiB.\<close>
definition copy_buf_size :: nat where
  "copy_buf_size = 32 * 1024"

record sys =
  st :: "(ssh_state, pipe_state) state"
  peer_sent :: "byte list"
  received :: "byte list"

definition sys_fresh :: "bool \<Rightarrow> sys" where
  "sys_fresh excl =
     \<lparr>st = newChConn std_Pipe crypto_Conn crypto_Channel excl ssh_fresh,
      peer_sent = [], received = []\<rparr>"

text \<open>
  Modelled from the spec: \<open>io.Copy\<close> is not part of the source file. The spec, section
  4.1: the task "copies bytes from the channel into feedEnd until the channel is exhausted
  or errors, at which point the copy task terminates". One round of the task in the state
  reads from its \<open>src\<close> into the buffer and writes what it read to its \<open>dst\<close>; after a
  failed or short write and after a failed read the task is gone. A round starts only when
  there is a task, the write of the round before has returned (nothing is on offer) and the
  channel has bytes; otherwise the step is not enabled.
\<close>
definition copy_step :: "sys \<Rightarrow> sys option" where
  "copy_step s =
     (case goroutine (st s) of
        None \<Rightarrow> None
      | Some task \<Rightarrow>
          if offered (pipe (st s)) \<noteq> [] \<or> inbound (ssh (st s)) = [] then None
          else
            (let ((buf, nr, er), x) =
                   ch_Read (src task) (replicate copy_buf_size 0) (ssh (st s));
                 ((nw, ew), p) =
                   (if 0 < nr then nc_Write (dst task) (take nr buf) (pipe (st s))
                    else ((0, None), pipe (st s)))
             in Some (s\<lparr>st := (st s)\<lparr>ssh := x, pipe := p,
                        goroutine := (if ew = None \<and> nr = nw \<and> er = None
                                      then Some task else None)\<rparr>\<rparr>)))"

datatype action = Peer_Write "byte list" | Copy_step | Call op

text \<open>
  A step of the schedule. A \<open>Read\<close> appends the \<open>n\<close> bytes it returned in the caller's
  buffer to \<open>received\<close>.
\<close>
fun sys_step :: "action \<Rightarrow> sys \<Rightarrow> sys option" where
  "sys_step (Peer_Write bs) s =
     Some (s\<lparr>st := (st s)\<lparr>ssh := (ssh (st s))\<lparr>inbound := inbound (ssh (st s)) @ bs\<rparr>\<rparr>,
             peer_sent := peer_sent s @ bs\<rparr>)"
| "sys_step Copy_step s = copy_step s"
| "sys_step (Call (Op_Read data)) s =
     (let ((data', n, err), t) = Read data (st s)
      in Some (s\<lparr>st := t, received := received s @ take n data'\<rparr>))"
| "sys_step (Call x) s = Some (s\<lparr>st := run_op x (st s)\<rparr>)"

fun sys_run :: "action list \<Rightarrow> sys \<Rightarrow> sys option" where
  "sys_run [] s = Some s"
| "sys_run (a # as) s = (case sys_step a s of None \<Rightarrow> None | Some s' \<Rightarrow> sys_run as s')"

text \<open>
  A caller that reads until all is delivered, the copy task running in between: while the
  copy task has bytes on offer the caller reads, into the buffer \<open>bufs k\<close>; else, while
  the channel has bytes, the copy task makes a round; when nothing is left the run is over.
  The first argument bounds the number of steps; the result is \<open>None\<close> when a step is not
  enabled or the bound is too small.
\<close>
fun read_all :: "nat \<Rightarrow> (nat \<Rightarrow> byte list) \<Rightarrow> sys \<Rightarrow> sys option" where
  "read_all 0 bufs s =
     (if offered (pipe (st s)) = [] \<and> inbound (ssh (st s)) = [] then Some s else None)"
| "read_all (Suc k) bufs s =
     (if offered (pipe (st s)) \<noteq> [] then
        (case sys_step (Call (Op_Read (bufs k))) s of
           None \<Rightarrow> None
         | Some s' \<Rightarrow> read_all k bufs s')
      else if inbound (ssh (st s)) \<noteq> [] then
        (case sys_step Copy_step s of
           None \<Rightarrow> None
         | Some s' \<Rightarrow> read_all k bufs s')
      else Some s)"

text \<open>Neither end of the pipe has been closed.\<close>
definition pipe_open :: "sys \<Rightarrow> bool" where
  "pipe_open s = (\<not> done1 (pipe (st s)) \<and> \<not> done2 (pipe (st s)))"

text \<open>
  The collaborators are the ones the \<open>ChConn\<close> was built with, and the copy task, as long
  as there is one, is the one the constructor started.
\<close>
definition wired :: "sys \<Rightarrow> bool" where
  "wired s =
     (reader (chconn (st s)) = std_end1 \<and> writer (chconn (st s)) = std_end2
      \<and> Channel (chconn (st s)) = crypto_Channel \<and> conn (chconn (st s)) = crypto_Conn
      \<and> deadlines2 (pipe (st s)) = (0, 0)
      \<and> (case goroutine (st s) of
           None \<Rightarrow> True
         | Some task \<Rightarrow> task = \<lparr>dst = std_end2, src = crypto_Channel\<rparr>))"

text \<open>
  What was read is the beginning of what the peer wrote; while the pipe is open the copy
  task is running, from the channel to the write end, and the rest is on its way, in
  order: first what the copy task offers, then what is in the channel.
\<close>
definition in_order :: "sys \<Rightarrow> bool" where
  "in_order s =
     (prefix (received s) (peer_sent s)
      \<and> (if pipe_open s
         then goroutine (st s) = Some \<lparr>dst = std_end2, src = crypto_Channel\<rparr>
            \<and> received s @ offered (pipe (st s)) @ inbound (ssh (st s)) = peer_sent s
         else True))"

definition read_ready :: "sys \<Rightarrow> bool" where
  "read_ready s =
     (wired s \<and> in_order s \<and> pipe_open s
      \<and> \<not> due (fst (deadlines1 (pipe (st s)))) (pipe (st s)))"

section \<open>Properties of the methods\<close>

lemmas call_defs = Channel_Close_def reader_Close_def writer_Close_def conn_Close_call_def
  Channel_Write_def reader_Read_def reader_SetDeadline_def reader_SetReadDeadline_def
  log_def mu_Lock_def mu_Unlock_def

lemma Close_shared_unfold:
  assumes "\<not> exclusive (chconn s)"
  shows "Close s =
     (let e1 = fst (ch_Close (Channel (chconn s)) (ssh s));
          x1 = snd (ch_Close (Channel (chconn s)) (ssh s));
          e2 = fst (nc_Close (reader (chconn s)) (pipe s));
          p1 = snd (nc_Close (reader (chconn s)) (pipe s));
          e3 = fst (nc_Close (writer (chconn s)) p1);
          p2 = snd (nc_Close (writer (chconn s)) p1)
      in (NewAggregate (append_err (append_err (append_err [] e1) e2) e3),
          s\<lparr>chconn := (chconn s)\<lparr>mu := False\<rparr>, ssh := x1, pipe := p2,
            calls := calls s @ [Ev_Close the_Channel e1, Ev_Close the_reader e2,
                                Ev_Close the_writer e3]\<rparr>))"
  using assms by (simp add: Close_def call_defs Let_def case_prod_beta)

lemma Close_exclusive_unfold:
  assumes "exclusive (chconn s)"
  shows "Close s =
     (let e1 = fst (ch_Close (Channel (chconn s)) (ssh s));
          x1 = snd (ch_Close (Channel (chconn s)) (ssh s));
          e2 = fst (nc_Close (reader (chconn s)) (pipe s));
          p1 = snd (nc_Close (reader (chconn s)) (pipe s));
          e3 = fst (nc_Close (writer (chconn s)) p1);
          p2 = snd (nc_Close (writer (chconn s)) p1);
          e4 = fst (conn_Close (conn (chconn s)) x1);
          x2 = snd (conn_Close (conn (chconn s)) x1)
      in (NewAggregate (append_err (append_err (append_err (append_err [] e1) e2) e3) e4),
          s\<lparr>chconn := (chconn s)\<lparr>mu := False\<rparr>, ssh := x2, pipe := p2,
            calls := calls s @ [Ev_Close the_Channel e1, Ev_Close the_reader e2,
                                Ev_Close the_writer e3, Ev_Close the_conn e4]\<rparr>))"
  using assms by (simp add: Close_def call_defs Let_def case_prod_beta)

lemma close_errors_closes3:
  "close_errors [Ev_Close a e1, Ev_Close b e2, Ev_Close c e3] =
     append_err (append_err (append_err [] e1) e2) e3"
  by (cases e1; cases e2; cases e3) (simp_all add: append_err_def)

lemma close_errors_closes4:
  "close_errors [Ev_Close a e1, Ev_Close b e2, Ev_Close c e3, Ev_Close d e4] =
     append_err (append_err (append_err (append_err [] e1) e2) e3) e4"
  by (cases e1; cases e2; cases e3; cases e4) (simp_all add: append_err_def)

subsection \<open>Closing\<close>

text \<open>
  Claim C1. \<open>Close\<close> of an exclusive \<open>ChConn\<close> makes exactly four calls, in this order:
  \<open>Close\<close> of the channel, of the read end of the pipe, of the write end of the pipe and
  of the parent connection, whatever the first three returned. The parent's \<open>Close\<close> runs
  on the SSH state that the channel's \<open>Close\<close> left. The error returned is the aggregate
  of the errors that these four calls reported, the parent's included, in call order.
\<close>
theorem Close_exclusive_closes_parent:
  assumes "exclusive (chconn s)"
  shows "new_calls s (snd (Close s)) =
           [Ev_Close the_Channel (fst (ch_Close (Channel (chconn s)) (ssh s))),
            Ev_Close the_reader (fst (nc_Close (reader (chconn s)) (pipe s))),
            Ev_Close the_writer
              (fst (nc_Close (writer (chconn s)) (snd (nc_Close (reader (chconn s)) (pipe s))))),
            Ev_Close the_conn
              (fst (conn_Close (conn (chconn s)) (snd (ch_Close (Channel (chconn s)) (ssh s)))))]
       \<and> calls (snd (Close s)) = calls s @ new_calls s (snd (Close s))
       \<and> ssh (snd (Close s)) =
           snd (conn_Close (conn (chconn s)) (snd (ch_Close (Channel (chconn s)) (ssh s))))
       \<and> fst (Close s) = NewAggregate (close_errors (new_calls s (snd (Close s))))"
  using assms
  by (simp add: Close_exclusive_unfold Let_def new_calls_def close_errors_closes4)

lemmas new_defs = newChConn_def NewChConn_def NewExclusiveChConn_def

lemmas std_defs = crypto_Channel_def crypto_Conn_def ssh_fresh_def std_end1_def std_end2_def
  std_Pipe_def due_def

text \<open>
  C1 at an exclusive \<open>ChConn\<close> all of whose collaborators fail to close: the parent is
  closed all the same, and the aggregate holds the four errors.
\<close>
theorem Close_exclusive_closes_parent_witness:
  "exclusive (chconn (NewExclusiveChConn (failing_Pipe EOF ErrClosedPipe)
       (failing_Conn (ErrOther ''conn'')) (failing_Channel (ErrOther ''channel'')) ()))
   \<and> new_calls
        (NewExclusiveChConn (failing_Pipe EOF ErrClosedPipe)
          (failing_Conn (ErrOther ''conn'')) (failing_Channel (ErrOther ''channel'')) ())
        (snd (Close (NewExclusiveChConn (failing_Pipe EOF ErrClosedPipe)
          (failing_Conn (ErrOther ''conn'')) (failing_Channel (ErrOther ''channel'')) ()))) =
      [Ev_Close the_Channel (Some (ErrOther ''channel'')), Ev_Close the_reader (Some EOF),
       Ev_Close the_writer (Some ErrClosedPipe), Ev_Close the_conn (Some (ErrOther ''conn''))]
   \<and> fst (Close (NewExclusiveChConn (failing_Pipe EOF ErrClosedPipe)
          (failing_Conn (ErrOther ''conn'')) (failing_Channel (ErrOther ''channel'')) ())) =
      Some (Aggregate [ErrOther ''channel'', EOF, ErrClosedPipe, ErrOther ''conn''])"
  using Close_exclusive_closes_parent
    [of "NewExclusiveChConn (failing_Pipe EOF ErrClosedPipe)
          (failing_Conn (ErrOther ''conn'')) (failing_Channel (ErrOther ''channel'')) ()"]
  by (simp add: new_defs failing_Channel_def failing_Conn_def failing_net_Conn_def
      failing_Pipe_def NewAggregate_def)

text \<open>
  Claim C2. \<open>Close\<close> of a \<open>ChConn\<close> that is not exclusive makes exactly three calls,
  on the channel and on the two ends of the pipe, and no call at all on the parent
  connection; the SSH state afterwards is the one that the channel's own \<open>Close\<close> left.
\<close>
theorem Close_shared_leaves_parent:
  assumes "\<not> exclusive (chconn s)"
  shows "new_calls s (snd (Close s)) =
           [Ev_Close the_Channel (fst (ch_Close (Channel (chconn s)) (ssh s))),
            Ev_Close the_reader (fst (nc_Close (reader (chconn s)) (pipe s))),
            Ev_Close the_writer
              (fst (nc_Close (writer (chconn s)) (snd (nc_Close (reader (chconn s)) (pipe s)))))]
       \<and> calls (snd (Close s)) = calls s @ new_calls s (snd (Close s))
       \<and> the_conn \<notin> set (callees (new_calls s (snd (Close s))))
       \<and> ssh (snd (Close s)) = snd (ch_Close (Channel (chconn s)) (ssh s))"
  using assms by (simp add: Close_shared_unfold Let_def new_calls_def)

text \<open>C2 at a fresh shared \<open>ChConn\<close>: after \<open>Close\<close> the parent connection is still open.\<close>
theorem Close_shared_leaves_parent_witness:
  "\<not> exclusive (chconn (NewChConn std_Pipe crypto_Conn crypto_Channel ssh_fresh))
   \<and> new_calls (NewChConn std_Pipe crypto_Conn crypto_Channel ssh_fresh)
        (snd (Close (NewChConn std_Pipe crypto_Conn crypto_Channel ssh_fresh))) =
      [Ev_Close the_Channel None, Ev_Close the_reader None, Ev_Close the_writer None]
   \<and> conn_closed (ssh (snd (Close (NewChConn std_Pipe crypto_Conn crypto_Channel ssh_fresh))))
      = False"
  using Close_shared_leaves_parent [of "NewChConn std_Pipe crypto_Conn crypto_Channel ssh_fresh"]
  by (simp add: new_defs std_defs)

lemma Close_new_calls:
  "new_calls s (snd (Close s)) =
     [Ev_Close the_Channel (fst (ch_Close (Channel (chconn s)) (ssh s))),
      Ev_Close the_reader (fst (nc_Close (reader (chconn s)) (pipe s))),
      Ev_Close the_writer
        (fst (nc_Close (writer (chconn s)) (snd (nc_Close (reader (chconn s)) (pipe s)))))] @
     (if exclusive (chconn s)
      then [Ev_Close the_conn
              (fst (conn_Close (conn (chconn s)) (snd (ch_Close (Channel (chconn s)) (ssh s)))))]
      else [])"
  by (cases "exclusive (chconn s)")
     (simp_all add: Close_shared_unfold Close_exclusive_unfold Let_def new_calls_def)

lemma Close_result:
  "fst (Close s) = NewAggregate (close_errors (new_calls s (snd (Close s))))"
  by (cases "exclusive (chconn s)")
     (simp_all add: Close_shared_unfold Close_exclusive_unfold Let_def new_calls_def
        close_errors_closes3 close_errors_closes4)

lemma Close_state:
  "pipe (snd (Close s)) =
     snd (nc_Close (writer (chconn s)) (snd (nc_Close (reader (chconn s)) (pipe s))))
   \<and> ssh (snd (Close s)) =
       (if exclusive (chconn s)
        then snd (conn_Close (conn (chconn s)) (snd (ch_Close (Channel (chconn s)) (ssh s))))
        else snd (ch_Close (Channel (chconn s)) (ssh s)))
   \<and> chconn (snd (Close s)) = (chconn s)\<lparr>mu := False\<rparr>
   \<and> goroutine (snd (Close s)) = goroutine s
   \<and> calls (snd (Close s)) = calls s @ new_calls s (snd (Close s))"
  by (cases "exclusive (chconn s)")
     (simp_all add: Close_shared_unfold Close_exclusive_unfold Let_def new_calls_def)

text \<open>
  Claim C3. In either mode \<open>Close\<close> carries out the three closes, of the channel, of the
  read end and of the write end of the pipe, each whatever the calls before it returned:
  they are the first three calls it makes (the parent's \<open>Close\<close> is the fourth, in exclusive
  mode only), the pipe is left as the close of the read end followed by the close of the
  write end leaves it, and the SSH side as the channel's \<open>Close\<close> (then, in exclusive mode,
  the parent's) leaves it; of the struct only the mutex is written. \<open>Close\<close> returns the
  aggregate of every error that the close calls it made reported, and \<open>nil\<close> exactly when
  none of them reported one.
\<close>
theorem Close_attempts_all_and_aggregates:
  "take 3 (new_calls s (snd (Close s))) =
     [Ev_Close the_Channel (fst (ch_Close (Channel (chconn s)) (ssh s))),
      Ev_Close the_reader (fst (nc_Close (reader (chconn s)) (pipe s))),
      Ev_Close the_writer
        (fst (nc_Close (writer (chconn s)) (snd (nc_Close (reader (chconn s)) (pipe s)))))]
   \<and> drop 3 (new_calls s (snd (Close s))) =
       (if exclusive (chconn s)
        then [Ev_Close the_conn
                (fst (conn_Close (conn (chconn s))
                   (snd (ch_Close (Channel (chconn s)) (ssh s)))))]
        else [])
   \<and> calls (snd (Close s)) = calls s @ new_calls s (snd (Close s))
   \<and> pipe (snd (Close s)) =
       snd (nc_Close (writer (chconn s)) (snd (nc_Close (reader (chconn s)) (pipe s))))
   \<and> ssh (snd (Close s)) =
       (if exclusive (chconn s)
        then snd (conn_Close (conn (chconn s)) (snd (ch_Close (Channel (chconn s)) (ssh s))))
        else snd (ch_Close (Channel (chconn s)) (ssh s)))
   \<and> chconn (snd (Close s)) = (chconn s)\<lparr>mu := False\<rparr>
   \<and> fst (Close s) =
       (if close_errors (new_calls s (snd (Close s))) = [] then None
        else Some (Aggregate (close_errors (new_calls s (snd (Close s))))))
   \<and> (fst (Close s) = None) = (close_errors (new_calls s (snd (Close s))) = [])"
proof -
  have "fst (Close s) = NewAggregate (close_errors (new_calls s (snd (Close s))))"
    by (rule Close_result)
  moreover have "take 3 (new_calls s (snd (Close s))) =
     [Ev_Close the_Channel (fst (ch_Close (Channel (chconn s)) (ssh s))),
      Ev_Close the_reader (fst (nc_Close (reader (chconn s)) (pipe s))),
      Ev_Close the_writer
        (fst (nc_Close (writer (chconn s)) (snd (nc_Close (reader (chconn s)) (pipe s)))))]"
    and "drop 3 (new_calls s (snd (Close s))) =
       (if exclusive (chconn s)
        then [Ev_Close the_conn
                (fst (conn_Close (conn (chconn s))
                   (snd (ch_Close (Channel (chconn s)) (ssh s)))))]
        else [])"
    by (simp_all add: Close_new_calls)
  ultimately show ?thesis
    using Close_state [of s] by (simp add: NewAggregate_def)
qed

text \<open>
  C3 at a shared \<open>ChConn\<close> over the pipe of \<open>net.Pipe()\<close> whose channel fails to close:
  both ends of the pipe are closed all the same, and the channel's error is returned.
\<close>
theorem Close_attempts_all_and_aggregates_witness:
  "new_calls
     (NewChConn std_Pipe crypto_Conn (failing_Channel (ErrOther ''channel'')) ssh_fresh)
     (snd (Close
        (NewChConn std_Pipe crypto_Conn (failing_Channel (ErrOther ''channel'')) ssh_fresh))) =
     [Ev_Close the_Channel (Some (ErrOther ''channel'')), Ev_Close the_reader None,
      Ev_Close the_writer None]
   \<and> done1 (pipe (snd (Close
        (NewChConn std_Pipe crypto_Conn (failing_Channel (ErrOther ''channel'')) ssh_fresh))))
   \<and> done2 (pipe (snd (Close
        (NewChConn std_Pipe crypto_Conn (failing_Channel (ErrOther ''channel'')) ssh_fresh))))
   \<and> fst (Close
        (NewChConn std_Pipe crypto_Conn (failing_Channel (ErrOther ''channel'')) ssh_fresh)) =
      Some (Aggregate [ErrOther ''channel''])"
proof -
  define s0 where
    "s0 = NewChConn std_Pipe crypto_Conn (failing_Channel (ErrOther ''channel'')) ssh_fresh"
  have f: "\<not> exclusive (chconn s0)" "reader (chconn s0) = std_end1"
    "writer (chconn s0) = std_end2"
    "Channel (chconn s0) = failing_Channel (ErrOther ''channel'')"
    "pipe s0 = pipe_fresh std_Pipe" "calls s0 = []"
    by (simp_all add: s0_def new_defs std_Pipe_def)
  have n: "new_calls s0 (snd (Close s0)) =
      take 3 (new_calls s0 (snd (Close s0))) @ drop 3 (new_calls s0 (snd (Close s0)))"
    by simp
  have "new_calls s0 (snd (Close s0)) =
     [Ev_Close the_Channel (Some (ErrOther ''channel'')), Ev_Close the_reader None,
      Ev_Close the_writer None]"
    using Close_attempts_all_and_aggregates [of s0]
    by (subst n) (simp add: f failing_Channel_def std_defs)
  moreover have "done1 (pipe (snd (Close s0)))" "done2 (pipe (snd (Close s0)))"
    using Close_attempts_all_and_aggregates [of s0]
    by (simp_all add: f std_defs)
  moreover from calculation(1) have "fst (Close s0) = Some (Aggregate [ErrOther ''channel''])"
    using Close_attempts_all_and_aggregates [of s0] by simp
  ultimately show ?thesis
    unfolding s0_def by simp
qed

subsection \<open>Deadlines and writes\<close>

text \<open>
  Claim C5. For every time \<open>t\<close>, \<open>SetWriteDeadline t\<close> returns \<open>nil\<close>, leaves the whole
  state as it is, calls no collaborator, and a \<open>Write\<close> after it does what it would have
  done without it.
\<close>
theorem SetWriteDeadline_noop:
  "SetWriteDeadline t s = (None, s)
   \<and> new_calls s (snd (SetWriteDeadline t s)) = []
   \<and> Write data (snd (SetWriteDeadline t s)) = Write data s"
  by (simp add: SetWriteDeadline_def new_calls_def)

lemmas method_defs = Read_def Write_def SetDeadline_def SetReadDeadline_def
  SetWriteDeadline_def LocalAddr_def RemoteAddr_def

lemma run_op_new_calls:
  "new_calls s (run_op x s) =
     (case x of
        Op_Read data \<Rightarrow>
          [Ev_Read the_reader (length data) (snd (fst (nc_Read (reader (chconn s)) data (pipe s))))]
      | Op_Write data \<Rightarrow>
          [Ev_Write the_Channel data (fst (ch_Write (Channel (chconn s)) data (ssh s)))]
      | Op_Close \<Rightarrow> new_calls s (snd (Close s))
      | Op_LocalAddr \<Rightarrow> [Ev_LocalAddr the_conn]
      | Op_RemoteAddr \<Rightarrow> [Ev_RemoteAddr the_conn]
      | Op_SetDeadline t \<Rightarrow>
          [Ev_SetDeadline the_reader t (fst (nc_SetDeadline (reader (chconn s)) t (pipe s)))]
      | Op_SetReadDeadline t \<Rightarrow>
          [Ev_SetReadDeadline the_reader t
             (fst (nc_SetReadDeadline (reader (chconn s)) t (pipe s)))]
      | Op_SetWriteDeadline t \<Rightarrow> [])"
  by (cases x) (simp_all add: method_defs call_defs new_calls_def case_prod_beta)

lemma run_op_calls:
  "calls (run_op x s) = calls s @ new_calls s (run_op x s)"
  by (cases x)
     (simp_all add: method_defs call_defs new_calls_def case_prod_beta Close_def Let_def)

text \<open>
  Claim C6. \<open>SetDeadline t\<close> returns what \<open>SetDeadline t\<close> of the read end of the pipe
  returns and leaves the pipe as that call leaves it; likewise \<open>SetReadDeadline t\<close>. Of
  all methods these two are the only ones that make a call installing a deadline, one call
  each, on the read end; construction makes none.
\<close>
theorem deadlines_delegate_to_reader:
  "fst (SetDeadline t s) = fst (nc_SetDeadline (reader (chconn s)) t (pipe s))
   \<and> pipe (snd (SetDeadline t s)) = snd (nc_SetDeadline (reader (chconn s)) t (pipe s))
   \<and> fst (SetReadDeadline t s) = fst (nc_SetReadDeadline (reader (chconn s)) t (pipe s))
   \<and> pipe (snd (SetReadDeadline t s)) =
       snd (nc_SetReadDeadline (reader (chconn s)) t (pipe s))
   \<and> deadline_calls (new_calls s (run_op x s)) =
       (case x of
          Op_SetDeadline t' \<Rightarrow> [Ev_SetDeadline the_reader t' (fst (SetDeadline t' s))]
        | Op_SetReadDeadline t' \<Rightarrow>
            [Ev_SetReadDeadline the_reader t' (fst (SetReadDeadline t' s))]
        | _ \<Rightarrow> [])
   \<and> deadline_calls (calls (newChConn net_Pipe cn ch excl x0)) = []"
proof -
  have "deadline_calls (new_calls s (snd (Close s))) = []"
    by (simp add: Close_new_calls)
  then show ?thesis
    by (simp add: run_op_new_calls method_defs call_defs case_prod_beta newChConn_def
        split: op.splits)
qed

text \<open>
  Claim C7. \<open>Write\<close> returns the count and the error of the channel's own \<open>Write\<close>,
  unchanged; it makes that one call and no other, so the pipe is not touched; and its
  result is the same after a read deadline has been set with \<open>SetReadDeadline\<close> or
  \<open>SetDeadline\<close>.
\<close>
theorem Write_goes_to_channel:
  "fst (Write data s) = fst (ch_Write (Channel (chconn s)) data (ssh s))
   \<and> new_calls s (snd (Write data s)) = [Ev_Write the_Channel data (fst (Write data s))]
   \<and> ssh (snd (Write data s)) = snd (ch_Write (Channel (chconn s)) data (ssh s))
   \<and> pipe (snd (Write data s)) = pipe s
   \<and> fst (Write data (snd (SetReadDeadline t s))) = fst (Write data s)
   \<and> fst (Write data (snd (SetDeadline t s))) = fst (Write data s)"
  by (simp add: method_defs call_defs new_calls_def case_prod_beta)

lemma request_calls_append:
  "request_calls (xs @ ys) = request_calls xs @ request_calls ys"
  by (induction xs rule: request_calls.induct) simp_all

lemma run_op_no_request: "request_calls (new_calls s (run_op x s)) = []"
  by (simp add: run_op_new_calls Close_new_calls split: op.splits)

lemma run_ops_no_request: "request_calls (calls (run_ops xs s)) = request_calls (calls s)"
proof (induction xs arbitrary: s)
  case Nil
  show ?case by simp
next
  case (Cons x xs)
  have "request_calls (calls (run_op x s)) = request_calls (calls s)"
    by (subst run_op_calls) (simp add: request_calls_append run_op_no_request)
  with Cons show ?case by simp
qed

subsection \<open>The request name\<close>

text \<open>
  Claim C8. \<open>ConnectionTypeRequest\<close> is the string "x-teleport-connection-type", and
  no method of \<open>ChConn\<close> sends a request over the channel: neither a single call nor any
  sequence of calls after construction logs one.
\<close>
theorem ConnectionTypeRequest_value_and_unused:
  "ConnectionTypeRequest = ''x-teleport-connection-type''
   \<and> request_calls (new_calls s (run_op x s)) = []
   \<and> request_calls (calls (run_ops xs (newChConn net_Pipe cn ch excl x0))) = []"
  by (simp add: ConnectionTypeRequest_def run_op_no_request run_ops_no_request newChConn_def)

lemma run_op_exclusive: "exclusive (chconn (run_op x s)) = exclusive (chconn s)"
  by (cases x)
     (simp_all add: method_defs call_defs case_prod_beta Close_def Let_def)

lemma run_ops_exclusive: "exclusive (chconn (run_ops xs s)) = exclusive (chconn s)"
  by (induction xs arbitrary: s) (simp_all add: run_op_exclusive)

subsection \<open>The exclusive flag\<close>

text \<open>
  Claim C9. \<open>NewChConn\<close> is \<open>newChConn\<close> with \<open>exclusive = false\<close>,
  \<open>NewExclusiveChConn\<close> is \<open>newChConn\<close> with \<open>exclusive = true\<close>, the flag of the
  result is the one given, and no method call or sequence of method calls changes it.
\<close>
theorem exclusive_fixed_at_construction:
  "NewChConn net_Pipe cn ch x0 = newChConn net_Pipe cn ch False x0
   \<and> NewExclusiveChConn net_Pipe cn ch x0 = newChConn net_Pipe cn ch True x0
   \<and> exclusive (chconn (newChConn net_Pipe cn ch excl x0)) = excl
   \<and> exclusive (chconn (NewChConn net_Pipe cn ch x0)) = False
   \<and> exclusive (chconn (NewExclusiveChConn net_Pipe cn ch x0)) = True
   \<and> exclusive (chconn (run_op x s)) = exclusive (chconn s)
   \<and> exclusive (chconn (run_ops xs s)) = exclusive (chconn s)"
  by (simp add: NewChConn_def NewExclusiveChConn_def newChConn_def run_op_exclusive
      run_ops_exclusive)

lemma Close_chconn: "chconn (snd (Close s)) = (chconn s)\<lparr>mu := False\<rparr>"
  by (cases "exclusive (chconn s)")
     (simp_all add: Close_shared_unfold Close_exclusive_unfold Let_def)

lemma close_calls_Close:
  "close_calls (new_calls s (snd (Close s))) =
     [the_Channel, the_reader, the_writer] @ (if exclusive (chconn s) then [the_conn] else [])"
  by (simp add: Close_new_calls)

subsection \<open>Closing twice\<close>

text \<open>
  Claim C10 as stated fails. On a shared \<open>ChConn\<close> over the pipe of \<open>net.Pipe()\<close> the
  first \<open>Close\<close> succeeds; in the second, only the channel reports an error, the two ends
  of the pipe report none, and the aggregate holds one error. Over a channel whose
  \<open>Close\<close> reports nothing when repeated, the second \<open>Close\<close> returns \<open>nil\<close>.
\<close>
theorem double_Close_counterexample:
  "fst (Close (NewChConn std_Pipe crypto_Conn crypto_Channel ssh_fresh)) = None
   \<and> new_calls
        (snd (Close (NewChConn std_Pipe crypto_Conn crypto_Channel ssh_fresh)))
        (snd (Close (snd (Close (NewChConn std_Pipe crypto_Conn crypto_Channel ssh_fresh))))) =
      [Ev_Close the_Channel (Some EOF), Ev_Close the_reader None, Ev_Close the_writer None]
   \<and> fst (Close (snd (Close (NewChConn std_Pipe crypto_Conn crypto_Channel ssh_fresh)))) =
      Some (Aggregate [EOF])
   \<and> fst (Close (NewChConn std_Pipe crypto_Conn once_Channel ssh_fresh)) = None
   \<and> fst (Close (snd (Close (NewChConn std_Pipe crypto_Conn once_Channel ssh_fresh)))) = None"
  by (simp add: Close_def call_defs new_defs std_defs once_Channel_def Let_def
      NewAggregate_def append_err_def new_calls_def)

text \<open>
  Claim C10, amended. \<open>Close\<close> keeps no record of having run. On a \<open>ChConn\<close> over the
  pipe of \<open>net.Pipe()\<close>, a second \<open>Close\<close> right after a first makes the same close calls
  again, in the same order; the two ends of the pipe report no error; and it returns the
  aggregate of exactly the errors that the repeated calls reported, which are those of the
  channel and, in exclusive mode, of the parent connection: \<open>nil\<close> exactly when they
  reported none.
\<close>
theorem double_Close_forwards_reported_errors:
  assumes "reader (chconn s) = std_end1" and "writer (chconn s) = std_end2"
  shows "close_calls (new_calls (snd (Close s)) (snd (Close (snd (Close s))))) =
           close_calls (new_calls s (snd (Close s)))
       \<and> new_calls (snd (Close s)) (snd (Close (snd (Close s)))) =
           [Ev_Close the_Channel (fst (ch_Close (Channel (chconn s)) (ssh (snd (Close s))))),
            Ev_Close the_reader None, Ev_Close the_writer None] @
           (if exclusive (chconn s)
            then [Ev_Close the_conn
                    (fst (conn_Close (conn (chconn s))
                       (snd (ch_Close (Channel (chconn s)) (ssh (snd (Close s)))))))]
            else [])
       \<and> fst (Close (snd (Close s))) =
           NewAggregate
             (close_errors (new_calls (snd (Close s)) (snd (Close (snd (Close s))))))
       \<and> (fst (Close (snd (Close s))) = None) =
           (close_errors (new_calls (snd (Close s)) (snd (Close (snd (Close s))))) = [])"
proof -
  have r: "fst (nc_Close std_end1 p) = None" for p
    by (simp add: std_end1_def)
  have w: "fst (nc_Close std_end2 p) = None" for p
    by (simp add: std_end2_def)
  have "new_calls (snd (Close s)) (snd (Close (snd (Close s)))) =
           [Ev_Close the_Channel (fst (ch_Close (Channel (chconn s)) (ssh (snd (Close s))))),
            Ev_Close the_reader None, Ev_Close the_writer None] @
           (if exclusive (chconn s)
            then [Ev_Close the_conn
                    (fst (conn_Close (conn (chconn s))
                       (snd (ch_Close (Channel (chconn s)) (ssh (snd (Close s)))))))]
            else [])"
    using assms by (simp add: Close_new_calls [of "snd (Close s)"] Close_chconn r w)
  moreover have "close_calls (new_calls (snd (Close s)) (snd (Close (snd (Close s))))) =
           close_calls (new_calls s (snd (Close s)))"
    by (simp add: close_calls_Close Close_chconn)
  moreover have "fst (Close (snd (Close s))) =
           NewAggregate
             (close_errors (new_calls (snd (Close s)) (snd (Close (snd (Close s))))))"
    by (rule Close_result)
  moreover from this have "(fst (Close (snd (Close s))) = None) =
           (close_errors (new_calls (snd (Close s)) (snd (Close (snd (Close s))))) = [])"
    by (simp add: NewAggregate_def)
  ultimately show ?thesis by blast
qed

text \<open>
  C10 amended, at an exclusive \<open>ChConn\<close>: the second \<open>Close\<close> returns the aggregate of
  the channel's and the parent's errors.
\<close>
theorem double_Close_forwards_reported_errors_witness:
  "reader (chconn (NewExclusiveChConn std_Pipe crypto_Conn crypto_Channel ssh_fresh)) = std_end1
   \<and> writer (chconn (NewExclusiveChConn std_Pipe crypto_Conn crypto_Channel ssh_fresh))
       = std_end2
   \<and> new_calls
        (snd (Close (NewExclusiveChConn std_Pipe crypto_Conn crypto_Channel ssh_fresh)))
        (snd (Close (snd (Close
           (NewExclusiveChConn std_Pipe crypto_Conn crypto_Channel ssh_fresh))))) =
      [Ev_Close the_Channel (Some EOF), Ev_Close the_reader None, Ev_Close the_writer None,
       Ev_Close the_conn (Some (ErrOther ''use of closed network connection''))]
   \<and> fst (Close (snd (Close
        (NewExclusiveChConn std_Pipe crypto_Conn crypto_Channel ssh_fresh)))) =
      Some (Aggregate [EOF, ErrOther ''use of closed network connection''])"
proof -
  define s0 where "s0 = NewExclusiveChConn std_Pipe crypto_Conn crypto_Channel ssh_fresh"
  have s1: "ssh (snd (Close s0)) =
      \<lparr>sentClose = True, conn_closed = True, inbound = [], outbound = []\<rparr>"
    by (simp add: s0_def Close_def call_defs new_defs std_defs Let_def)
  have rd: "reader (chconn s0) = std_end1" and wr: "writer (chconn s0) = std_end2"
    and ex: "exclusive (chconn s0)" and ch: "Channel (chconn s0) = crypto_Channel"
    and cn: "conn (chconn s0) = crypto_Conn"
    by (simp_all add: s0_def NewExclusiveChConn_def newChConn_def std_Pipe_def)
  have "new_calls (snd (Close s0)) (snd (Close (snd (Close s0)))) =
      [Ev_Close the_Channel (Some EOF), Ev_Close the_reader None, Ev_Close the_writer None,
       Ev_Close the_conn (Some (ErrOther ''use of closed network connection''))]
    \<and> fst (Close (snd (Close s0))) =
      Some (Aggregate [EOF, ErrOther ''use of closed network connection''])"
    using double_Close_forwards_reported_errors [OF rd wr]
    by (simp add: s1 ex ch cn crypto_Channel_def crypto_Conn_def NewAggregate_def)
  with rd wr show ?thesis
    unfolding s0_def by simp
qed

section \<open>Properties of the data path\<close>

lemma take_drop_cat: "take n xs @ drop n xs @ ys = xs @ ys"
  by (metis append_assoc append_take_drop_id)

lemma wired_fresh: "wired (sys_fresh excl)"
  by (simp add: wired_def sys_fresh_def newChConn_def std_Pipe_def)

lemma in_order_fresh: "in_order (sys_fresh excl)"
  by (simp add: in_order_def pipe_open_def sys_fresh_def newChConn_def std_Pipe_def ssh_fresh_def)

lemma run_op_goroutine: "goroutine (run_op x t) = goroutine t"
  by (cases x) (simp_all add: method_defs call_defs Close_def Let_def case_prod_beta)

lemma wired_step: "sys_step a s = Some s' \<Longrightarrow> wired s \<Longrightarrow> wired s'"
proof (cases a)
  case (Peer_Write bs)
  then show "sys_step a s = Some s' \<Longrightarrow> wired s \<Longrightarrow> wired s'"
    by (auto simp: wired_def)
next
  case Copy_step
  assume "sys_step a s = Some s'" and w: "wired s"
  then have st: "copy_step s = Some s'" using Copy_step by simp
  then obtain task where g: "goroutine (st s) = Some task"
    by (auto simp: copy_step_def split: option.splits)
  have t: "task = \<lparr>dst = std_end2, src = crypto_Channel\<rparr>"
    using w g by (simp add: wired_def)
  have wr: "deadlines2 (snd (nc_Write std_end2 bs p)) = deadlines2 p" for bs p
    by (simp add: std_end2_def)
  have "chconn (st s') = chconn (st s)"
    and "deadlines2 (pipe (st s')) = deadlines2 (pipe (st s))"
    and "goroutine (st s') = None \<or> goroutine (st s') = Some task"
    using st by (auto simp: copy_step_def g t wr Let_def case_prod_beta split: if_splits)
  then show "wired s'"
    using w t by (auto simp: wired_def)
next
  case (Call x)
  assume st: "sys_step a s = Some s'" and w: "wired s"
  have s': "st s' = run_op x (st s)"
    using st Call by (cases x) (auto simp: case_prod_beta)
  have "chconn (run_op x (st s)) = (chconn (st s))\<lparr>mu := False\<rparr>
      \<or> chconn (run_op x (st s)) = chconn (st s)"
    by (cases x) (simp_all add: method_defs call_defs Close_def Let_def case_prod_beta)
  moreover have "deadlines2 (pipe (run_op x (st s))) = deadlines2 (pipe (st s))"
    using w
    by (cases x)
       (simp_all add: wired_def method_defs call_defs Close_def Let_def case_prod_beta
          std_end1_def std_end2_def)
  ultimately show "wired s'"
    using w by (auto simp: wired_def s' run_op_goroutine)
qed

lemma copy_step_open:
  assumes "pipe_open s" and "in_order s" and "wired s"
    and "offered (pipe (st s)) = []" and "inbound (ssh (st s)) \<noteq> []"
    and "n = min copy_buf_size (length (inbound (ssh (st s))))"
  shows "copy_step s =
     Some (s\<lparr>st := (st s)\<lparr>ssh := (ssh (st s))\<lparr>inbound := drop n (inbound (ssh (st s)))\<rparr>,
        pipe := (pipe (st s))\<lparr>offered := take n (inbound (ssh (st s)))\<rparr>,
        goroutine := Some \<lparr>dst = std_end2, src = crypto_Channel\<rparr>\<rparr>\<rparr>)"
proof -
  have g: "goroutine (st s) = Some \<lparr>dst = std_end2, src = crypto_Channel\<rparr>"
    using assms(1,2) by (simp add: in_order_def)
  have n: "0 < n" using assms(5,6) by (simp add: copy_buf_size_def)
  have rd: "ch_Read crypto_Channel (replicate copy_buf_size 0) (ssh (st s)) =
      ((take n (inbound (ssh (st s))) @ drop n (replicate copy_buf_size 0), n, None),
       (ssh (st s))\<lparr>inbound := drop n (inbound (ssh (st s)))\<rparr>)"
    using assms(5,6) by (simp add: crypto_Channel_def Let_def)
  have tk: "min (length (inbound (ssh (st s)))) n = n"
    using assms(6) by simp
  have d: "deadlines2 (pipe (st s)) = (0, 0)"
    using assms(3) by (simp add: wired_def)
  show ?thesis
    using assms(1,4,5) n
    by (simp add: copy_step_def g rd tk d std_end2_def pipe_open_def due_def)
qed

lemma copy_step_closed:
  assumes "copy_step s = Some s'" and "wired s" and "\<not> pipe_open s"
  shows "pipe (st s') = pipe (st s) \<and> received s' = received s \<and> peer_sent s' = peer_sent s"
proof -
  have g: "goroutine (st s) = Some \<lparr>dst = std_end2, src = crypto_Channel\<rparr>"
    using assms(1,2) by (auto simp: copy_step_def wired_def split: option.splits)
  have w: "snd (nc_Write std_end2 bs (pipe (st s))) = pipe (st s)" for bs
    using assms(3) by (auto simp: std_end2_def pipe_open_def)
  show ?thesis
    using assms(1)
    by (auto simp: copy_step_def g w Let_def case_prod_beta split: if_splits)
qed

lemma copy_step_in_order:
  assumes "copy_step s = Some s'" and "wired s" and "in_order s"
  shows "in_order s'"
proof (cases "pipe_open s")
  case True
  from assms(1) have g: "offered (pipe (st s)) = []" "inbound (ssh (st s)) \<noteq> []"
    by (auto simp: copy_step_def split: if_splits option.splits)
  define n where "n = min copy_buf_size (length (inbound (ssh (st s))))"
  have s': "s' = s\<lparr>st := (st s)\<lparr>ssh := (ssh (st s))\<lparr>inbound := drop n (inbound (ssh (st s)))\<rparr>,
        pipe := (pipe (st s))\<lparr>offered := take n (inbound (ssh (st s)))\<rparr>,
        goroutine := Some \<lparr>dst = std_end2, src = crypto_Channel\<rparr>\<rparr>\<rparr>"
    using copy_step_open [OF True assms(3,2) g n_def] assms(1) by simp
  from True assms(3) have "received s @ inbound (ssh (st s)) = peer_sent s"
    and "prefix (received s) (peer_sent s)"
    using g by (simp_all add: in_order_def)
  then show ?thesis
    using True by (simp add: s' in_order_def pipe_open_def)
next
  case False
  from copy_step_closed [OF assms(1,2) False] show ?thesis
    using False assms(3) by (auto simp: in_order_def pipe_open_def)
qed

lemma Read_std:
  assumes "reader (chconn t) = std_end1"
  shows "fst (Read data t) = fst (nc_Read std_end1 data (pipe t))"
    and "pipe (snd (Read data t)) = snd (nc_Read std_end1 data (pipe t))"
    and "ssh (snd (Read data t)) = ssh t"
    and "goroutine (snd (Read data t)) = goroutine t"
  using assms by (simp_all add: Read_def reader_Read_def case_prod_beta log_def)

lemma Read_in_order:
  assumes "sys_step (Call (Op_Read data)) s = Some s'" and "wired s" and "in_order s"
  shows "in_order s'"
proof -
  have rd: "reader (chconn (st s)) = std_end1" using assms(2) by (simp add: wired_def)
  have s': "s' = s\<lparr>st := snd (Read data (st s)),
      received := received s @ take (fst (snd (fst (Read data (st s))))) (fst (fst (Read data (st s))))\<rparr>"
    using assms(1) by (simp add: case_prod_beta)
  show ?thesis
  proof (cases "pipe_open s \<and> \<not> due (fst (deadlines1 (pipe (st s)))) (pipe (st s))
      \<and> offered (pipe (st s)) \<noteq> []")
    case True
    define nr where "nr = min (length data) (length (offered (pipe (st s))))"
    have r: "nc_Read std_end1 data (pipe (st s)) =
        ((take nr (offered (pipe (st s))) @ drop nr data, nr, None),
         (pipe (st s))\<lparr>offered := drop nr (offered (pipe (st s)))\<rparr>)"
      using True by (simp add: std_end1_def pipe_open_def nr_def Let_def)
    have tk: "min (length (offered (pipe (st s)))) nr = nr"
      by (simp add: nr_def)
    from True assms(3) have io: "goroutine (st s) = Some \<lparr>dst = std_end2, src = crypto_Channel\<rparr>"
      "received s @ offered (pipe (st s)) @ inbound (ssh (st s)) = peer_sent s"
      by (simp_all add: in_order_def)
    have "(received s @ take nr (offered (pipe (st s)))) @ drop nr (offered (pipe (st s)))
        @ inbound (ssh (st s)) = peer_sent s"
      using io(2) by (simp add: take_drop_cat)
    moreover from this have "prefix (received s @ take nr (offered (pipe (st s)))) (peer_sent s)"
      by (metis prefixI)
    ultimately show ?thesis
      using True io(1)
      by (simp add: s' in_order_def pipe_open_def Read_std [OF rd] r tk)
  next
    case False
    then have r: "snd (nc_Read std_end1 data (pipe (st s))) = pipe (st s)"
        "fst (snd (fst (nc_Read std_end1 data (pipe (st s))))) = 0"
      by (auto simp: std_end1_def pipe_open_def)
    then show ?thesis
      using assms(3) by (simp add: s' in_order_def pipe_open_def Read_std [OF rd])
  qed
qed

lemma run_op_pipe_std:
  assumes "reader (chconn t) = std_end1" and "writer (chconn t) = std_end2"
    and "\<And>data. x \<noteq> Op_Read data"
  shows "offered (pipe (run_op x t)) = offered (pipe t)"
    and "done1 (pipe t) \<Longrightarrow> done1 (pipe (run_op x t))"
    and "done2 (pipe t) \<Longrightarrow> done2 (pipe (run_op x t))"
  using assms
  by (cases x; simp add: method_defs call_defs Close_def Let_def case_prod_beta
        std_end1_def std_end2_def)+

lemma run_op_inbound_crypto:
  assumes "Channel (chconn t) = crypto_Channel" and "conn (chconn t) = crypto_Conn"
    and "\<And>data. x \<noteq> Op_Read data"
  shows "inbound (ssh (run_op x t)) = inbound (ssh t)"
  using assms
  by (cases x; simp add: method_defs call_defs Close_def Let_def case_prod_beta
        crypto_Channel_def crypto_Conn_def)

lemma Call_in_order:
  assumes "sys_step (Call x) s = Some s'" and "wired s" and "in_order s"
  shows "in_order s'"
proof (cases "\<exists>data. x = Op_Read data")
  case True
  then show ?thesis using assms Read_in_order by blast
next
  case False
  then have nr: "\<And>data. x \<noteq> Op_Read data" by blast
  have s': "s' = s\<lparr>st := run_op x (st s)\<rparr>"
    using assms(1) False by (cases x) auto
  have w: "reader (chconn (st s)) = std_end1" "writer (chconn (st s)) = std_end2"
    "Channel (chconn (st s)) = crypto_Channel" "conn (chconn (st s)) = crypto_Conn"
    using assms(2) by (simp_all add: wired_def)
  have "pipe_open s" if "pipe_open s'"
    using that run_op_pipe_std(2,3) [OF w(1,2) nr] by (auto simp: pipe_open_def s')
  then show ?thesis
    using assms(3)
    by (auto simp: in_order_def s' run_op_pipe_std(1) [OF w(1,2) nr]
        run_op_inbound_crypto [OF w(3,4) nr] run_op_goroutine)
qed

lemma sys_step_in_order:
  assumes "sys_step a s = Some s'" and "wired s" and "in_order s"
  shows "in_order s'"
proof (cases a)
  case (Peer_Write bs)
  then have s': "s' = s\<lparr>st := (st s)\<lparr>ssh := (ssh (st s))\<lparr>inbound := inbound (ssh (st s)) @ bs\<rparr>\<rparr>,
             peer_sent := peer_sent s @ bs\<rparr>"
    using assms(1) by simp
  show ?thesis
    using assms(3) by (auto simp: s' in_order_def pipe_open_def)
next
  case Copy_step
  then show ?thesis using assms copy_step_in_order by simp
next
  case (Call x)
  then show ?thesis using assms Call_in_order by simp
qed

lemma sys_run_invariant:
  "sys_run as s = Some s' \<Longrightarrow> wired s \<Longrightarrow> in_order s \<Longrightarrow> wired s' \<and> in_order s'"
proof (induction as arbitrary: s)
  case Nil
  then show ?case by simp
next
  case (Cons a as)
  then obtain s1 where s1: "sys_step a s = Some s1" "sys_run as s1 = Some s'"
    by (auto split: option.splits)
  then have "wired s1" "in_order s1"
    using Cons.prems wired_step sys_step_in_order by blast+
  then show ?case using Cons.IH s1(2) by blast
qed

lemma copy_step_ready:
  assumes "read_ready s" and "offered (pipe (st s)) = []" and "inbound (ssh (st s)) \<noteq> []"
  shows "\<exists>s1 n. copy_step s = Some s1 \<and> read_ready s1 \<and> 0 < n
      \<and> n \<le> length (inbound (ssh (st s)))
      \<and> offered (pipe (st s1)) = take n (inbound (ssh (st s)))
      \<and> inbound (ssh (st s1)) = drop n (inbound (ssh (st s)))
      \<and> received s1 = received s \<and> peer_sent s1 = peer_sent s"
proof -
  define n where "n = min copy_buf_size (length (inbound (ssh (st s))))"
  have n: "0 < n" "n \<le> length (inbound (ssh (st s)))"
    using assms(3) by (simp_all add: n_def copy_buf_size_def)
  have w: "wired s" "in_order s" "pipe_open s"
    using assms(1) by (simp_all add: read_ready_def)
  define s1 where "s1 = s\<lparr>st := (st s)\<lparr>ssh := (ssh (st s))\<lparr>inbound := drop n (inbound (ssh (st s)))\<rparr>,
        pipe := (pipe (st s))\<lparr>offered := take n (inbound (ssh (st s)))\<rparr>,
        goroutine := Some \<lparr>dst = std_end2, src = crypto_Channel\<rparr>\<rparr>\<rparr>"
  have st: "copy_step s = Some s1"
    using copy_step_open [OF w(3,2,1) assms(2,3) n_def] by (simp add: s1_def)
  then have stp: "sys_step Copy_step s = Some s1" by simp
  have "wired s1" by (rule wired_step [OF stp w(1)])
  moreover have "in_order s1" by (rule sys_step_in_order [OF stp w(1,2)])
  moreover have "pipe_open s1" "\<not> due (fst (deadlines1 (pipe (st s1)))) (pipe (st s1))"
    using assms(1) by (simp_all add: s1_def read_ready_def pipe_open_def due_def)
  ultimately have "read_ready s1" by (simp add: read_ready_def)
  then show ?thesis using st n by (intro exI [of _ s1] exI [of _ n]) (simp add: s1_def)
qed

lemma Read_ready:
  assumes "read_ready s" and "offered (pipe (st s)) \<noteq> []" and "data \<noteq> []"
  shows "\<exists>s1 n. sys_step (Call (Op_Read data)) s = Some s1 \<and> read_ready s1 \<and> 0 < n
      \<and> n \<le> length (offered (pipe (st s)))
      \<and> offered (pipe (st s1)) = drop n (offered (pipe (st s)))
      \<and> inbound (ssh (st s1)) = inbound (ssh (st s))
      \<and> received s1 = received s @ take n (offered (pipe (st s)))
      \<and> peer_sent s1 = peer_sent s"
proof -
  define nr where "nr = min (length data) (length (offered (pipe (st s))))"
  have nr: "0 < nr" "nr \<le> length (offered (pipe (st s)))"
    using assms(2,3) by (simp_all add: nr_def)
  have rd: "reader (chconn (st s)) = std_end1"
    using assms(1) by (simp add: read_ready_def wired_def)
  have r: "nc_Read std_end1 data (pipe (st s)) =
      ((take nr (offered (pipe (st s))) @ drop nr data, nr, None),
       (pipe (st s))\<lparr>offered := drop nr (offered (pipe (st s)))\<rparr>)"
    using assms(1,2) by (simp add: std_end1_def read_ready_def pipe_open_def nr_def Let_def)
  have tk: "min (length (offered (pipe (st s)))) nr = nr"
    by (simp add: nr_def)
  obtain s1 where st: "sys_step (Call (Op_Read data)) s = Some s1"
    by (simp add: case_prod_beta)
  then have s1: "s1 = s\<lparr>st := snd (Read data (st s)),
      received := received s @ take (fst (snd (fst (Read data (st s))))) (fst (fst (Read data (st s))))\<rparr>"
    by (simp add: case_prod_beta)
  have w: "wired s" "in_order s" using assms(1) by (simp_all add: read_ready_def)
  have "wired s1" by (rule wired_step [OF st w(1)])
  moreover have "in_order s1" by (rule sys_step_in_order [OF st w])
  moreover have "pipe_open s1" "\<not> due (fst (deadlines1 (pipe (st s1)))) (pipe (st s1))"
    using assms(1) by (simp_all add: s1 read_ready_def pipe_open_def due_def Read_std [OF rd] r)
  ultimately have "read_ready s1" by (simp add: read_ready_def)
  moreover have "offered (pipe (st s1)) = drop nr (offered (pipe (st s)))"
    "inbound (ssh (st s1)) = inbound (ssh (st s))"
    "received s1 = received s @ take nr (offered (pipe (st s)))" "peer_sent s1 = peer_sent s"
    by (simp_all add: s1 Read_std [OF rd] r tk)
  ultimately show ?thesis using st nr by blast
qed

lemma read_all_delivers:
  assumes "\<And>k. bufs k \<noteq> []"
  shows "read_ready s \<Longrightarrow>
    2 * length (inbound (ssh (st s))) + length (offered (pipe (st s))) \<le> n \<Longrightarrow>
    \<exists>s'. read_all n bufs s = Some s' \<and> received s' = peer_sent s \<and> peer_sent s' = peer_sent s"
proof (induction n arbitrary: s)
  case 0
  then have e: "offered (pipe (st s)) = []" "inbound (ssh (st s)) = []" by simp_all
  have "received s = peer_sent s"
    using "0.prems"(1) e by (auto simp: read_ready_def in_order_def)
  then show ?case using e by simp
next
  case (Suc k)
  show ?case
  proof (cases "offered (pipe (st s)) = []")
    case False
    from Read_ready [OF Suc.prems(1) False assms] obtain s1 m where
      s1: "sys_step (Call (Op_Read (bufs k))) s = Some s1" "read_ready s1" "0 < m"
        "m \<le> length (offered (pipe (st s)))"
        "offered (pipe (st s1)) = drop m (offered (pipe (st s)))"
        "inbound (ssh (st s1)) = inbound (ssh (st s))"
        "peer_sent s1 = peer_sent s"
      by blast
    then have "2 * length (inbound (ssh (st s1))) + length (offered (pipe (st s1))) \<le> k"
      using Suc.prems(2) by simp
    from Suc.IH [OF s1(2) this] obtain s' where
      "read_all k bufs s1 = Some s'" "received s' = peer_sent s1" "peer_sent s' = peer_sent s1"
      by blast
    then show ?thesis using False s1(1,7) by simp
  next
    case True
    show ?thesis
    proof (cases "inbound (ssh (st s)) = []")
      case True
      have "received s = peer_sent s"
        using Suc.prems(1) True \<open>offered (pipe (st s)) = []\<close>
        by (auto simp: read_ready_def in_order_def)
      then show ?thesis using True \<open>offered (pipe (st s)) = []\<close> by simp
    next
      case False
      from copy_step_ready [OF Suc.prems(1) True False] obtain s1 m where
        s1: "copy_step s = Some s1" "read_ready s1" "0 < m"
          "m \<le> length (inbound (ssh (st s)))"
          "offered (pipe (st s1)) = take m (inbound (ssh (st s)))"
          "inbound (ssh (st s1)) = drop m (inbound (ssh (st s)))"
          "peer_sent s1 = peer_sent s"
        by blast
      then have "2 * length (inbound (ssh (st s1))) + length (offered (pipe (st s1))) \<le> k"
        using Suc.prems(2) True by simp
      from Suc.IH [OF s1(2) this] obtain s' where
        "read_all k bufs s1 = Some s'" "received s' = peer_sent s1" "peer_sent s' = peer_sent s1"
        by blast
      then show ?thesis using False True s1(1,7) by simp
    qed
  qed
qed

text \<open>
  Claim C4. The copy task that \<open>newChConn\<close> starts is the only producer. In every schedule
  of peer writes, rounds of that task and method calls, the bytes that \<open>Read\<close> has returned
  are the beginning of the bytes that the peer wrote. While the pipe is open the task is
  still the one started at construction, from the channel to the write end, and nothing is
  lost, doubled or reordered: what was read, then what the copy task offers, then what sits
  in the channel, is exactly what the peer wrote. From there, while no read deadline is
  due, a caller that keeps reading, into buffers of any sizes other than zero, receives all
  that the peer wrote, within as many steps as twice the bytes in the channel plus the bytes
  on offer.
\<close>
theorem Read_receives_channel_bytes_in_order:
  assumes "sys_run as (sys_fresh excl) = Some s"
  shows "goroutine (st (sys_fresh excl)) =
           Some \<lparr>dst = writer (chconn (st (sys_fresh excl))),
                 src = Channel (chconn (st (sys_fresh excl)))\<rparr>
       \<and> prefix (received s) (peer_sent s)
       \<and> (if pipe_open s
          then goroutine (st s) = goroutine (st (sys_fresh excl))
             \<and> received s @ offered (pipe (st s)) @ inbound (ssh (st s)) = peer_sent s
          else True)
       \<and> (if pipe_open s \<and> \<not> due (fst (deadlines1 (pipe (st s)))) (pipe (st s))
             \<and> (\<forall>k. bufs k \<noteq> [])
             \<and> 2 * length (inbound (ssh (st s))) + length (offered (pipe (st s))) \<le> n
          then map_option received (read_all n bufs s) = Some (peer_sent s)
          else True)"
proof -
  have inv: "wired s" "in_order s"
    using sys_run_invariant [OF assms wired_fresh in_order_fresh] by simp_all
  have f: "goroutine (st (sys_fresh excl)) = Some \<lparr>dst = std_end2, src = crypto_Channel\<rparr>"
    "writer (chconn (st (sys_fresh excl))) = std_end2"
    "Channel (chconn (st (sys_fresh excl))) = crypto_Channel"
    by (simp_all add: sys_fresh_def newChConn_def std_Pipe_def)
  have "map_option received (read_all n bufs s) = Some (peer_sent s)"
    if "pipe_open s" "\<not> due (fst (deadlines1 (pipe (st s)))) (pipe (st s))"
      "\<forall>k. bufs k \<noteq> []"
      "2 * length (inbound (ssh (st s))) + length (offered (pipe (st s))) \<le> n"
  proof -
    have "read_ready s" using that(1,2) inv by (simp add: read_ready_def)
    from read_all_delivers [OF _ this that(4), of bufs] that(3)
    obtain s' where "read_all n bufs s = Some s'" "received s' = peer_sent s" by blast
    then show ?thesis by simp
  qed
  then show ?thesis
    using inv(2) f by (auto simp: in_order_def)
qed

lemmas sys_defs = sys_fresh_def copy_step_def copy_buf_size_def Let_def case_prod_beta

text \<open>
  C4 at a schedule in which the peer writes "pi", the copy task makes a round, the caller
  reads one byte and the peer writes "ng": "p" is read, "i" is on offer, "ng" is in the
  channel; reading on with buffers of two bytes brings out "ping".
\<close>
theorem Read_receives_channel_bytes_in_order_witness:
  "map_option
     (\<lambda>s. (received s, offered (pipe (st s)), inbound (ssh (st s)), peer_sent s,
           map_option received (read_all 5 (\<lambda>k. [0, 0]) s)))
     (sys_run [Peer_Write [0x70, 0x69], Copy_step, Call (Op_Read [0]),
               Peer_Write [0x6e, 0x67]] (sys_fresh False)) =
   Some ([0x70], [0x69], [0x6e, 0x67], [0x70, 0x69, 0x6e, 0x67],
         Some [0x70, 0x69, 0x6e, 0x67])"
proof -
  have "\<exists>s. sys_run [Peer_Write [0x70, 0x69], Copy_step, Call (Op_Read [0]),
               Peer_Write [0x6e, 0x67]] (sys_fresh False) = Some s
      \<and> received s = [0x70] \<and> offered (pipe (st s)) = [0x69]
      \<and> inbound (ssh (st s)) = [0x6e, 0x67] \<and> peer_sent s = [0x70, 0x69, 0x6e, 0x67]
      \<and> pipe_open s \<and> \<not> due (fst (deadlines1 (pipe (st s)))) (pipe (st s))"
    by (simp add: sys_defs new_defs std_defs method_defs call_defs pipe_open_def)
  then obtain s where s: "sys_run [Peer_Write [0x70, 0x69], Copy_step, Call (Op_Read [0]),
               Peer_Write [0x6e, 0x67]] (sys_fresh False) = Some s"
    and r: "received s = [0x70]" "offered (pipe (st s)) = [0x69]"
      "inbound (ssh (st s)) = [0x6e, 0x67]" "peer_sent s = [0x70, 0x69, 0x6e, 0x67]"
    and o: "pipe_open s" "\<not> due (fst (deadlines1 (pipe (st s)))) (pipe (st s))"
    by blast
  from Read_receives_channel_bytes_in_order [OF s, of "\<lambda>k. [0, 0]" 5]
  have "map_option received (read_all 5 (\<lambda>k. [0, 0]) s) = Some (peer_sent s)"
    using o r by simp
  with s r show ?thesis by simp
qed

end
